theory Spec2Isabelle
  imports Complex_Main "HOL-Library.Word" "HOL-Library.Multiset"
begin

section \<open>Strings and errors\<close>

text \<open>
  A JavaScript string is a sequence of UTF-16 code units and \<open>length\<close> counts code units, so a
  string is a list of 16-bit words. \<open>js\<close> turns an ASCII literal into such a string.
\<close>

type_synonym jsstring = "16 word list"

definition js :: "string \<Rightarrow> jsstring" where
  "js s = map (\<lambda>c. of_nat (of_char c)) s"

text \<open>A thrown value: \<open>new Error(msg)\<close>, or the TypeError of a property read on undefined.\<close>

datatype js_error = Error jsstring | TypeError jsstring

section \<open>Regular expressions\<close>

text \<open>
  The resolvers and the PDF renderer are written with regular expression literals. The literals
  are kept as syntax trees and run by a backtracking matcher that lists the ways a pattern can
  match in the order in which a backtracking engine tries them: the left alternative first, a
  greedy quantifier first with one more iteration. The head of that list is the match the engine
  reports. A state is the input that is left and the captures made so far (newest first).
\<close>

datatype regex =
    Eps
  | Chr "16 word"
  | Dot
  | Cls "16 word \<Rightarrow> bool"
  | Bol
  | Eol
  | Seq regex regex
  | Alt regex regex
  | Opt regex
  | Star regex
  | Grp nat regex

type_synonym mstate = "jsstring \<times> (nat \<times> jsstring) list"

text \<open>\<open>.\<close> matches every code unit but the four line terminators; \<open>\w\<close> is \<open>[A-Za-z0-9_]\<close>.\<close>

definition is_line_terminator :: "16 word \<Rightarrow> bool" where
  "is_line_terminator c = (c = 0x0A \<or> c = 0x0D \<or> c = 0x2028 \<or> c = 0x2029)"

definition is_word_char :: "16 word \<Rightarrow> bool" where
  "is_word_char c =
     ((0x61 \<le> c \<and> c \<le> 0x7A) \<or> (0x41 \<le> c \<and> c \<le> 0x5A) \<or> (0x30 \<le> c \<and> c \<le> 0x39) \<or> c = 0x5F)"

text \<open>
  \<open>matches n r st\<close>: \<open>n\<close> is the length of the whole input, which \<open>^\<close> compares with what is
  left. An iteration of \<open>*\<close> that consumes nothing is rejected, as in ECMAScript.
\<close>

fun matches :: "nat \<Rightarrow> regex \<Rightarrow> mstate \<Rightarrow> mstate list" where
  "matches n Eps st = [st]"
| "matches n (Chr c) (s, caps) =
     (case s of [] \<Rightarrow> [] | x # xs \<Rightarrow> if x = c then [(xs, caps)] else [])"
| "matches n Dot (s, caps) =
     (case s of [] \<Rightarrow> [] | x # xs \<Rightarrow> if is_line_terminator x then [] else [(xs, caps)])"
| "matches n (Cls p) (s, caps) =
     (case s of [] \<Rightarrow> [] | x # xs \<Rightarrow> if p x then [(xs, caps)] else [])"
| "matches n Bol (s, caps) = (if length s = n then [(s, caps)] else [])"
| "matches n Eol (s, caps) = (if s = [] then [(s, caps)] else [])"
| "matches n (Seq r1 r2) st = concat (map (matches n r2) (matches n r1 st))"
| "matches n (Alt r1 r2) st = matches n r1 st @ matches n r2 st"
| "matches n (Opt r) st = matches n r st @ [st]"
| "matches n (Star r) (s, caps) =
     concat (map (\<lambda>st'. if length (fst st') < length s then matches n (Star r) st' else [])
                 (matches n r (s, caps))) @ [(s, caps)]"
| "matches n (Grp k r) (s, caps) =
     map (\<lambda>(s', caps'). (s', (k, take (length s - length s') s) # caps'))
         (matches n r (s, caps))"

text \<open>
  \<open>RegExp.prototype.exec\<close> without the \<open>g\<close> flag: the first start index, from 0, at which the
  pattern matches. The result is the match array as an association list: index 0 is the matched
  text, index k the text of group k, a group that took no part is absent (\<open>undefined\<close>).
\<close>

fun exec_from :: "nat \<Rightarrow> regex \<Rightarrow> jsstring \<Rightarrow> (nat \<times> jsstring) list option" where
  "exec_from n r s =
     (case matches n r (s, []) of
        (s', caps) # _ \<Rightarrow> Some ((0, take (length s - length s') s) # caps)
      | [] \<Rightarrow> (case s of [] \<Rightarrow> None | _ # s1 \<Rightarrow> exec_from n r s1))"

definition re_match :: "regex \<Rightarrow> jsstring \<Rightarrow> (nat \<times> jsstring) list option" where
  "re_match r s = exec_from (length s) r s"

definition re_test :: "regex \<Rightarrow> jsstring \<Rightarrow> bool" where
  "re_test r s = (re_match r s \<noteq> None)"

text \<open>A run of literal characters, and \<open>r{k}\<close>.\<close>

fun lit :: "jsstring \<Rightarrow> regex" where
  "lit [] = Eps"
| "lit [c] = Chr c"
| "lit (c # cs) = Seq (Chr c) (lit cs)"

fun rep :: "nat \<Rightarrow> regex \<Rightarrow> regex" where
  "rep 0 r = Eps"
| "rep (Suc k) r = Seq r (rep k r)"

section \<open>The video id resolvers\<close>

text \<open>
  \<^verbatim>\<open>/^.*((youtu.be\/)|(v\/)|(\/u\/\w\/)|(embed\/)|(watch\?))\??v?=?([^#&?]*).*/\<close>,
  the pattern of both resolvers. The dot of \<open>youtu.be\<close> is not escaped in the source.
\<close>

definition regExp :: regex where
  "regExp =
     Seq Bol (Seq (Star Dot)
       (Seq (Grp 1
               (Alt (Grp 2 (Seq (lit (js ''youtu'')) (Seq Dot (lit (js ''be/'')))))
               (Alt (Grp 3 (lit (js ''v/'')))
               (Alt (Grp 4 (Seq (lit (js ''/u/'')) (Seq (Cls is_word_char) (Chr 0x2F))))
               (Alt (Grp 5 (lit (js ''embed/'')))
                    (Grp 6 (lit (js ''watch?''))))))))
       (Seq (Opt (Chr 0x3F)) (Seq (Opt (Chr 0x76)) (Seq (Opt (Chr 0x3D))
       (Seq (Grp 7 (Star (Cls (\<lambda>c. c \<noteq> 0x23 \<and> c \<noteq> 0x26 \<and> c \<noteq> 0x3F))))
            (Star Dot)))))))"

text \<open>
  \<open>extractVideoID\<close> of the analysis service. \<open>!url\<close> holds of the empty string. \<open>match[7].length\<close>
  throws a TypeError when group 7 is undefined, so that is a branch of the model.
\<close>

definition extractVideoID :: "jsstring \<Rightarrow> js_error + jsstring option" where
  "extractVideoID url =
     (if url = [] then Inr None
      else case re_match regExp url of
             None \<Rightarrow> Inr None
           | Some m \<Rightarrow>
               (case map_of m 7 of
                  None \<Rightarrow> Inl (TypeError (js ''Cannot read properties of undefined''))
                | Some g \<Rightarrow> if length g = 11 then Inr (Some g) else Inr None))"

text \<open>
  \<open>extractYouTubeVideoId\<close> of the storage service: the same pattern, behind a branch for an id
  that is already extracted, \<^verbatim>\<open>/^[a-zA-Z0-9_-]{11}$/\<close>. It guards \<open>match[7]\<close> by its truthiness
  before reading the length, so it has no throwing branch.
\<close>

definition is_id_char :: "16 word \<Rightarrow> bool" where
  "is_id_char c =
     ((0x61 \<le> c \<and> c \<le> 0x7A) \<or> (0x41 \<le> c \<and> c \<le> 0x5A) \<or> (0x30 \<le> c \<and> c \<le> 0x39)
      \<or> c = 0x5F \<or> c = 0x2D)"

definition idRegExp :: regex where
  "idRegExp = Seq Bol (Seq (rep 11 (Cls is_id_char)) Eol)"

definition extractYouTubeVideoId :: "jsstring \<Rightarrow> jsstring option" where
  "extractYouTubeVideoId url =
     (if url = [] then None
      else if length url = 11 \<and> re_test idRegExp url then Some url
      else case re_match regExp url of
             None \<Rightarrow> None
           | Some m \<Rightarrow>
               (case map_of m 7 of
                  None \<Rightarrow> None
                | Some g \<Rightarrow> if g \<noteq> [] \<and> length g = 11 then Some g else None))"

text \<open>\<open>getEmbedUrl\<close>: the conditional tests the truthiness of the id, null or empty being falsy.\<close>

definition getEmbedUrl :: "jsstring \<Rightarrow> js_error + jsstring" where
  "getEmbedUrl url =
     (case extractVideoID url of
        Inl e \<Rightarrow> Inl e
      | Inr videoId \<Rightarrow>
          (case videoId of
             None \<Rightarrow> Inr []
           | Some v \<Rightarrow> if v \<noteq> [] then Inr (js ''https://www.youtube.com/embed/'' @ v) else Inr []))"

section \<open>The data model\<close>

text \<open>
  The interfaces of the type declarations. A field whose name another record or Isabelle itself
  uses carries the initials of its record. A \<open>number\<close> is a real: the timestamps are taken to
  be numbers that the comparator can order, which leaves out NaN.
\<close>

datatype content_type = type_text | type_code | type_key_point

record TimeStampedContent =
  timestamp :: real
  text_tsc :: jsstring
  type_tsc :: content_type
  language_tsc :: "jsstring option"

record VideoDetails =
  title :: jsstring
  description :: jsstring
  thumbnail :: jsstring
  channel :: jsstring
  duration :: jsstring
  captions :: "jsstring option"
  language :: "jsstring option"

record SummaryContent =
  text_sc :: jsstring
  code :: "jsstring list"
  links :: "jsstring list"
  imageReferences :: "jsstring list"
  timestamps :: "TimeStampedContent list"
  keyPoints :: "TimeStampedContent list"
  transcriptSummary :: "jsstring option"

text \<open>
  What \<open>processTranscript\<close> resolves to. The caption service is outside the sources at hand;
  these are the three fields that \<open>generateSummary\<close> reads from its result.
\<close>

record ProcessedContent =
  summary :: jsstring
  keyPoints_pc :: "TimeStampedContent list"
  codeBlocks :: "TimeStampedContent list"

text \<open>The fields that \<open>getVideoDetails\<close> reads from the oEmbed answer.\<close>

record oembed =
  title_json :: jsstring
  description_json :: "jsstring option"
  author_name :: jsstring
  duration_json :: "jsstring option"

text \<open>
  The collaborators of the analysis service: the network (\<open>fetch\<close> followed by
  \<open>response.json()\<close>), the build-time environment, and the two functions of the caption
  service. Each call either throws or returns.
\<close>

record 'c services =
  fetch_json :: "jsstring \<Rightarrow> js_error + oembed"
  VITE_YOUTUBE_API_KEY :: "jsstring option"
  fetchCaptions :: "jsstring \<Rightarrow> jsstring \<Rightarrow> js_error + 'c"
  processTranscript :: "'c \<Rightarrow> js_error + ProcessedContent"

section \<open>The analysis service\<close>

text \<open>\<open>a || b\<close> on strings: \<open>undefined\<close> and the empty string are falsy.\<close>

definition or_else :: "jsstring option \<Rightarrow> jsstring \<Rightarrow> jsstring" where
  "or_else a b = (case a of None \<Rightarrow> b | Some t \<Rightarrow> if t \<noteq> [] then t else b)"

text \<open>
  \<open>getVideoDetails\<close>. An error of the fetch is logged and thrown again, so it is the result.
\<close>

definition getVideoDetails :: "'c services \<Rightarrow> jsstring \<Rightarrow> js_error + VideoDetails" where
  "getVideoDetails sv url =
     (case extractVideoID url of
        Inl e \<Rightarrow> Inl e
      | Inr videoId \<Rightarrow>
          (case videoId of
             None \<Rightarrow> Inl (Error (js ''Invalid YouTube URL''))
           | Some v \<Rightarrow>
               if v = [] then Inl (Error (js ''Invalid YouTube URL''))
               else
                 (case fetch_json sv
                         (js ''https://www.youtube.com/oembed?url=https://www.youtube.com/watch?v=''
                          @ v @ js ''&format=json'') of
                    Inl e \<Rightarrow> Inl e
                  | Inr data \<Rightarrow>
                      Inr \<lparr> title = title_json data,
                            description =
                              or_else (description_json data) (js ''Description not available''),
                            thumbnail =
                              js ''https://img.youtube.com/vi/'' @ v @ js ''/maxresdefault.jpg'',
                            channel = author_name data,
                            duration = or_else (duration_json data) (js ''Duration not available''),
                            captions = None,
                            language = None \<rparr>)))"

text \<open>
  \<open>Array.prototype.sort\<close> with a comparator. The engine's algorithm is not part of the
  repository; ECMAScript fixes what it returns for a consistent comparator, the sorted
  permutation that keeps the order of elements the comparator holds equal. It is modelled by
  insertion from the right: an element goes in front of the first element of the sorted rest
  that the comparator does not place before it.
\<close>

fun insert_by :: "('a \<Rightarrow> 'a \<Rightarrow> real) \<Rightarrow> 'a \<Rightarrow> 'a list \<Rightarrow> 'a list" where
  "insert_by cmp x [] = [x]"
| "insert_by cmp x (y # ys) = (if cmp x y \<le> 0 then x # y # ys else y # insert_by cmp x ys)"

definition array_sort :: "('a \<Rightarrow> 'a \<Rightarrow> real) \<Rightarrow> 'a list \<Rightarrow> 'a list" where
  "array_sort cmp xs = foldr (insert_by cmp) xs []"

text \<open>
  The inner \<open>try\<close> block of \<open>generateSummary\<close>: the four variables \<open>transcriptSummary\<close>,
  \<open>timestamps\<close>, \<open>keyPoints\<close> and \<open>codeSnippets\<close> after it. They keep their initial values when
  there is no API key and when a call of the caption service throws (the \<open>catch\<close> logs a warning
  and goes on).
\<close>

definition processCaptions ::
  "'c services \<Rightarrow> jsstring \<Rightarrow>
   jsstring option \<times> TimeStampedContent list \<times> TimeStampedContent list \<times> jsstring list" where
  "processCaptions sv videoId =
     (case VITE_YOUTUBE_API_KEY sv of
        None \<Rightarrow> (None, [], [], [])
      | Some apiKey \<Rightarrow>
          if apiKey = [] then (None, [], [], [])
          else
            (case fetchCaptions sv videoId apiKey of
               Inl e \<Rightarrow> (None, [], [], [])
             | Inr captions' \<Rightarrow>
                 (case processTranscript sv captions' of
                    Inl e \<Rightarrow> (None, [], [], [])
                  | Inr processedContent \<Rightarrow>
                      (Some (summary processedContent),
                       array_sort (\<lambda>a b. timestamp a - timestamp b)
                         (keyPoints_pc processedContent @ codeBlocks processedContent),
                       keyPoints_pc processedContent,
                       map text_tsc (codeBlocks processedContent)))))"

text \<open>The template literal that stands in for a missing transcript summary.\<close>

definition fallbackText :: "VideoDetails \<Rightarrow> jsstring" where
  "fallbackText videoDetails =
     js ''This video titled '' @ [0x22] @ title videoDetails @ [0x22] @ js '' by ''
     @ channel videoDetails
     @ js '' provides a comprehensive overview of the topic.'' @ [0x0A] @ js ''      '' @ [0x0A]
     @ js ''The content is structured to help viewers understand the subject matter through clear explanations and examples. The presenter breaks down complex concepts into digestible segments, making it easier for the audience to follow along.''"

definition watchUrl :: "jsstring \<Rightarrow> jsstring" where
  "watchUrl videoId = js ''https://www.youtube.com/watch?v='' @ videoId"

text \<open>
  \<open>generateSummary\<close>. The outer \<open>catch\<close> logs and throws the error again, so an error of
  \<open>getVideoDetails\<close> is the result.
\<close>

definition generateSummary :: "'c services \<Rightarrow> jsstring \<Rightarrow> js_error + SummaryContent" where
  "generateSummary sv videoId =
     (let videoUrl = watchUrl videoId in
      case getVideoDetails sv videoUrl of
        Inl e \<Rightarrow> Inl e
      | Inr videoDetails \<Rightarrow>
          (case processCaptions sv videoId of
             (transcriptSummary', timestamps', keyPoints', codeSnippets) \<Rightarrow>
               Inr \<lparr> text_sc = or_else transcriptSummary' (fallbackText videoDetails),
                     code = codeSnippets,
                     links = [videoUrl, js ''https://www.youtube.com/channel/'' @ channel videoDetails],
                     imageReferences = [thumbnail videoDetails],
                     timestamps = timestamps',
                     keyPoints = keyPoints',
                     transcriptSummary = transcriptSummary' \<rparr>))"

text \<open>
  The page's \<open>handleSubmit\<close> appends the image references of the storage service to those
  of the summary: \<open>[...(summary.imageReferences || []), ...supabaseImages]\<close>. An array is truthy,
  so the \<open>||\<close> keeps it.
\<close>

definition combinedSummary :: "SummaryContent \<Rightarrow> jsstring list \<Rightarrow> SummaryContent" where
  "combinedSummary summary' supabaseImages =
     summary'\<lparr> imageReferences := imageReferences summary' @ supabaseImages \<rparr>"

section \<open>The PDF renderer\<close>

text \<open>
  The jsPDF library is not part of the repository. A document is the list of the calls made on
  it so far, in order. The library is a parameter: whether the constructor throws, the page
  height, how a text is broken into lines (which depends on the font set so far, hence on the
  document), whether a call throws in a given document, and what \<open>doc.output('blob')\<close>
  returns (\<open>output_blob\<close>). Numbers are reals.
\<close>

datatype pdf_call =
    SetFontSize real
  | SetFont jsstring jsstring
  | Text "jsstring list" real real
  | AddPage
  | SetDrawColor real real real
  | Line real real real real
  | SetTextColor real real real
  | SetProperties jsstring jsstring jsstring jsstring jsstring

record 'b jsPDF =
  construct :: "js_error option"
  pageHeight :: real
  splitTextToSize :: "pdf_call list \<Rightarrow> jsstring \<Rightarrow> real \<Rightarrow> js_error + jsstring list"
  fault :: "pdf_call list \<Rightarrow> pdf_call \<Rightarrow> js_error option"
  output_blob :: "pdf_call list \<Rightarrow> js_error + 'b"

text \<open>The two variables that the body of \<open>generatePDF\<close> updates.\<close>

record pdf_state =
  doc :: "pdf_call list"
  yPosition :: real

definition lineHeight :: real where
  "lineHeight = 10"

definition maxWidth :: real where
  "maxWidth = 180"

text \<open>A sequence of statements: the first one that throws ends it.\<close>

fun steps :: "(pdf_state \<Rightarrow> js_error + pdf_state) list \<Rightarrow> pdf_state \<Rightarrow> js_error + pdf_state" where
  "steps [] st = Inr st"
| "steps (f # fs) st = (case f st of Inl e \<Rightarrow> Inl e | Inr st' \<Rightarrow> steps fs st')"

definition call :: "'b jsPDF \<Rightarrow> pdf_call \<Rightarrow> pdf_state \<Rightarrow> js_error + pdf_state" where
  "call lib c st =
     (case fault lib (doc st) c of
        Some e \<Rightarrow> Inl e
      | None \<Rightarrow> Inr (st\<lparr> doc := doc st @ [c] \<rparr>))"

text \<open>\<open>doc.text(t, 15, yPosition)\<close>, \<open>doc.line(15, yPosition, 195, yPosition)\<close>, \<open>yPosition += d\<close>.\<close>

definition text_at_y :: "'b jsPDF \<Rightarrow> jsstring list \<Rightarrow> pdf_state \<Rightarrow> js_error + pdf_state" where
  "text_at_y lib t st = call lib (Text t 15 (yPosition st)) st"

definition line_at_y :: "'b jsPDF \<Rightarrow> pdf_state \<Rightarrow> js_error + pdf_state" where
  "line_at_y lib st = call lib (Line 15 (yPosition st) 195 (yPosition st)) st"

definition advance :: "real \<Rightarrow> pdf_state \<Rightarrow> js_error + pdf_state" where
  "advance d st = Inr (st\<lparr> yPosition := yPosition st + d \<rparr>)"

text \<open>\<open>checkPageBreak\<close>. No caller reads the boolean it returns, so the model leaves it out.\<close>

definition checkPageBreak :: "'b jsPDF \<Rightarrow> real \<Rightarrow> pdf_state \<Rightarrow> js_error + pdf_state" where
  "checkPageBreak lib neededSpace st =
     (if yPosition st + neededSpace > pageHeight lib - 20
      then (case call lib AddPage st of
              Inl e \<Rightarrow> Inl e
            | Inr st' \<Rightarrow> Inr (st'\<lparr> yPosition := 20 \<rparr>))
      else Inr st)"

text \<open>\<open>summary.text.split('\n\n')\<close>: the pieces between the occurrences found from the left.\<close>

fun split_paragraphs :: "jsstring \<Rightarrow> jsstring \<Rightarrow> jsstring list" where
  "split_paragraphs cur (a # b # cs) =
     (if a = 0x0A \<and> b = 0x0A then cur # split_paragraphs [] cs
      else split_paragraphs (cur @ [a]) (b # cs))"
| "split_paragraphs cur [a] = [cur @ [a]]"
| "split_paragraphs cur [] = [cur]"

text \<open>The body of the loop over the paragraphs.\<close>

definition writeParagraph :: "'b jsPDF \<Rightarrow> jsstring \<Rightarrow> pdf_state \<Rightarrow> js_error + pdf_state" where
  "writeParagraph lib paragraph st =
     (case splitTextToSize lib (doc st) paragraph maxWidth of
        Inl e \<Rightarrow> Inl e
      | Inr splitText \<Rightarrow>
          steps [checkPageBreak lib (real (length splitText) * 6 + lineHeight),
                 text_at_y lib splitText,
                 advance (real (length splitText) * 6 + lineHeight)] st)"

text \<open>
  The two patterns of the code section, \<^verbatim>\<open>/```(\w+)/\<close> and \<^verbatim>\<open>/```\w*\n|```/g\<close>, and
  \<open>replace\<close> of all matches by the empty string: a match is cut out and the search goes on
  behind it; where there is none, the character is kept.
\<close>

definition languageRegExp :: regex where
  "languageRegExp =
     Seq (lit [0x60, 0x60, 0x60]) (Grp 1 (Seq (Cls is_word_char) (Star (Cls is_word_char))))"

definition fenceRegExp :: regex where
  "fenceRegExp =
     Alt (Seq (lit [0x60, 0x60, 0x60]) (Seq (Star (Cls is_word_char)) (Chr 0x0A)))
         (lit [0x60, 0x60, 0x60])"

function remove_all :: "nat \<Rightarrow> regex \<Rightarrow> jsstring \<Rightarrow> jsstring" where
  "remove_all n r [] = []"
| "remove_all n r (x # xs) =
     (case matches n r (x # xs, []) of
        [] \<Rightarrow> x # remove_all n r xs
      | (s', caps) # _ \<Rightarrow>
          if length s' < length (x # xs) then remove_all n r s' else x # remove_all n r xs)"
  by pat_completeness auto
termination
  by (relation "measure (\<lambda>(n, r, s). length s)") auto

definition language_of :: "jsstring \<Rightarrow> jsstring" where
  "language_of codeSnippet =
     (case re_match languageRegExp codeSnippet of
        None \<Rightarrow> js ''code''
      | Some m \<Rightarrow> (case map_of m 1 of None \<Rightarrow> js ''undefined'' | Some g \<Rightarrow> g))"

definition cleanedCode :: "jsstring \<Rightarrow> jsstring" where
  "cleanedCode codeSnippet = remove_all (length codeSnippet) fenceRegExp codeSnippet"

text \<open>The bodies of the loops over the code snippets, the links and the image references.\<close>

definition writeCodeSnippet :: "'b jsPDF \<Rightarrow> jsstring \<Rightarrow> pdf_state \<Rightarrow> js_error + pdf_state" where
  "writeCodeSnippet lib codeSnippet st =
     (case splitTextToSize lib (doc st) (cleanedCode codeSnippet) maxWidth of
        Inl e \<Rightarrow> Inl e
      | Inr splitCode \<Rightarrow>
          steps [checkPageBreak lib (real (length splitCode) * 5 + lineHeight * 2),
                 call lib (SetFontSize 10),
                 call lib (SetFont (js ''helvetica'') (js ''italic'')),
                 text_at_y lib [js ''Language: '' @ language_of codeSnippet],
                 advance lineHeight,
                 call lib (SetFontSize 8),
                 call lib (SetFont (js ''courier'') (js ''normal'')),
                 text_at_y lib splitCode,
                 advance (real (length splitCode) * 5 + lineHeight * 1.5)] st)"

definition writeLink :: "'b jsPDF \<Rightarrow> jsstring \<Rightarrow> pdf_state \<Rightarrow> js_error + pdf_state" where
  "writeLink lib link st =
     (case checkPageBreak lib (lineHeight * 1.5) st of
        Inl e \<Rightarrow> Inl e
      | Inr st1 \<Rightarrow>
          (case splitTextToSize lib (doc st1) link maxWidth of
             Inl e \<Rightarrow> Inl e
           | Inr splitLink \<Rightarrow>
               steps [text_at_y lib splitLink,
                      advance (real (length splitLink) * 6 + 2)] st1))"

definition writeImage :: "'b jsPDF \<Rightarrow> jsstring \<Rightarrow> pdf_state \<Rightarrow> js_error + pdf_state" where
  "writeImage lib image' st =
     steps [checkPageBreak lib lineHeight,
            text_at_y lib [[0xE2, 0x20AC, 0xA2, 0x20] @ image'],
            advance lineHeight] st"

text \<open>The statements of the body, section by section.\<close>

definition headerSection ::
  "'b jsPDF \<Rightarrow> VideoDetails \<Rightarrow> (pdf_state \<Rightarrow> js_error + pdf_state) list" where
  "headerSection lib videoDetails =
     [call lib (SetFontSize 16),
      call lib (SetFont (js ''helvetica'') (js ''bold'')),
      text_at_y lib [js ''Video Summary: '' @ title videoDetails],
      advance (lineHeight * 1.5),
      call lib (SetFontSize 12),
      call lib (SetFont (js ''helvetica'') (js ''normal'')),
      text_at_y lib [js ''Channel: '' @ channel videoDetails],
      advance lineHeight,
      text_at_y lib [js ''Duration: '' @ duration videoDetails],
      advance (lineHeight * 1.5),
      call lib (SetDrawColor 200 200 200),
      line_at_y lib,
      advance lineHeight,
      call lib (SetFontSize 14),
      call lib (SetFont (js ''helvetica'') (js ''bold'')),
      text_at_y lib [js ''Summary''],
      advance lineHeight,
      call lib (SetFontSize 10),
      call lib (SetFont (js ''helvetica'') (js ''normal''))]"

definition summarySection ::
  "'b jsPDF \<Rightarrow> SummaryContent \<Rightarrow> (pdf_state \<Rightarrow> js_error + pdf_state) list" where
  "summarySection lib summary' = map (writeParagraph lib) (split_paragraphs [] (text_sc summary'))"

definition codeSection ::
  "'b jsPDF \<Rightarrow> SummaryContent \<Rightarrow> (pdf_state \<Rightarrow> js_error + pdf_state) list" where
  "codeSection lib summary' =
     (if length (code summary') > 0
      then [checkPageBreak lib (lineHeight * 2),
            advance (lineHeight / 2),
            call lib (SetFontSize 14),
            call lib (SetFont (js ''helvetica'') (js ''bold'')),
            text_at_y lib [js ''Code Snippets''],
            advance lineHeight,
            call lib (SetFontSize 9),
            call lib (SetFont (js ''courier'') (js ''normal''))]
           @ map (writeCodeSnippet lib) (code summary')
      else [])"

definition linksSection ::
  "'b jsPDF \<Rightarrow> SummaryContent \<Rightarrow> (pdf_state \<Rightarrow> js_error + pdf_state) list" where
  "linksSection lib summary' =
     (if length (links summary') > 0
      then [checkPageBreak lib (lineHeight * 2),
            call lib (SetFontSize 14),
            call lib (SetFont (js ''helvetica'') (js ''bold'')),
            text_at_y lib [js ''Referenced Links''],
            advance lineHeight,
            call lib (SetFontSize 9),
            call lib (SetFont (js ''helvetica'') (js ''normal'')),
            call lib (SetTextColor 0 0 255)]
           @ map (writeLink lib) (links summary')
           @ [call lib (SetTextColor 0 0 0)]
      else [])"

definition imagesSection ::
  "'b jsPDF \<Rightarrow> SummaryContent \<Rightarrow> (pdf_state \<Rightarrow> js_error + pdf_state) list" where
  "imagesSection lib summary' =
     (if length (imageReferences summary') > 0
      then [checkPageBreak lib (lineHeight * 2),
            call lib (SetFontSize 14),
            call lib (SetFont (js ''helvetica'') (js ''bold'')),
            text_at_y lib [js ''Image References''],
            advance lineHeight,
            call lib (SetFontSize 10),
            call lib (SetFont (js ''helvetica'') (js ''normal''))]
           @ map (writeImage lib) (imageReferences summary')
      else [])"

text \<open>
  The body of the \<open>try\<close> of \<open>generatePDF\<close>, and \<open>generatePDF\<close>: whatever the body throws is
  logged and replaced by \<open>new Error('Failed to generate PDF')\<close>.
\<close>

definition generatePDF_try ::
  "'b jsPDF \<Rightarrow> VideoDetails \<Rightarrow> SummaryContent \<Rightarrow> js_error + 'b" where
  "generatePDF_try lib videoDetails summary' =
     (case construct lib of
        Some e \<Rightarrow> Inl e
      | None \<Rightarrow>
          (case steps (headerSection lib videoDetails
                       @ summarySection lib summary'
                       @ codeSection lib summary'
                       @ linksSection lib summary'
                       @ imagesSection lib summary'
                       @ [call lib (SetProperties (title videoDetails @ js '' - Summary'')
                                      (js ''YouTube Video Summary'') (js ''AI Summarizer'')
                                      (js ''youtube, summary, ai'') (js ''YouTube AI Summarizer''))])
                  \<lparr> doc = [], yPosition = 20 \<rparr> of
             Inl e \<Rightarrow> Inl e
           | Inr st \<Rightarrow> output_blob lib (doc st)))"

definition generatePDF ::
  "'b jsPDF \<Rightarrow> VideoDetails \<Rightarrow> SummaryContent \<Rightarrow> js_error + 'b" where
  "generatePDF lib videoDetails summary' =
     (case generatePDF_try lib videoDetails summary' of
        Inl e \<Rightarrow> Inl (Error (js ''Failed to generate PDF''))
      | Inr pdfBlob \<Rightarrow> Inr pdfBlob)"

section \<open>Concrete inputs\<close>

text \<open>
  A video, an oEmbed answer, and a result of the caption service whose key points and code
  blocks are out of order and share the timestamp 30; the text of the first code block is
  fenced. One environment processes the captions, the other throws when they are fetched.
\<close>

definition demo_id :: jsstring where
  "demo_id = js ''dQw4w9WgXcQ''"

definition demo_oembed :: oembed where
  "demo_oembed =
     \<lparr> title_json = js ''Intro'', description_json = None,
       author_name = js ''Ada'', duration_json = Some (js ''3:32'') \<rparr>"

definition demo_details :: VideoDetails where
  "demo_details =
     \<lparr> title = js ''Intro'', description = js ''Description not available'',
       thumbnail = js ''https://img.youtube.com/vi/dQw4w9WgXcQ/maxresdefault.jpg'',
       channel = js ''Ada'', duration = js ''3:32'', captions = None, language = None \<rparr>"

definition fenced :: jsstring where
  "fenced = [0x60, 0x60, 0x60] @ js ''js'' @ [0x0A] @ js ''x'' @ [0x0A] @ [0x60, 0x60, 0x60]"

definition k1 :: TimeStampedContent where
  "k1 = \<lparr> timestamp = 30, text_tsc = js ''recap'', type_tsc = type_key_point, language_tsc = None \<rparr>"

definition k2 :: TimeStampedContent where
  "k2 = \<lparr> timestamp = 10, text_tsc = js ''goal'', type_tsc = type_key_point, language_tsc = None \<rparr>"

definition c1 :: TimeStampedContent where
  "c1 = \<lparr> timestamp = 30, text_tsc = fenced, type_tsc = type_code, language_tsc = Some (js ''js'') \<rparr>"

definition c2 :: TimeStampedContent where
  "c2 = \<lparr> timestamp = 20, text_tsc = js ''y = 1'', type_tsc = type_code, language_tsc = None \<rparr>"

definition demo_processed :: ProcessedContent where
  "demo_processed = \<lparr> summary = js ''A short talk.'', keyPoints_pc = [k1, k2], codeBlocks = [c1, c2] \<rparr>"

definition demo_services :: "unit services" where
  "demo_services =
     \<lparr> fetch_json = (\<lambda>u. Inr demo_oembed),
       VITE_YOUTUBE_API_KEY = Some (js ''key''),
       fetchCaptions = (\<lambda>v k. Inr ()),
       processTranscript = (\<lambda>c. Inr demo_processed) \<rparr>"

definition failing_services :: "unit services" where
  "failing_services =
     \<lparr> fetch_json = (\<lambda>u. Inr demo_oembed),
       VITE_YOUTUBE_API_KEY = Some (js ''key''),
       fetchCaptions = (\<lambda>v k. Inl (Error (js ''captions unavailable''))),
       processTranscript = (\<lambda>c. Inr demo_processed) \<rparr>"

text \<open>A third environment: the caption service returns an empty summary and no items.\<close>

definition silent_services :: "unit services" where
  "silent_services =
     \<lparr> fetch_json = (\<lambda>u. Inr demo_oembed),
       VITE_YOUTUBE_API_KEY = Some (js ''key''),
       fetchCaptions = (\<lambda>v k. Inr ()),
       processTranscript = (\<lambda>c. Inr \<lparr> summary = [], keyPoints_pc = [], codeBlocks = [] \<rparr>) \<rparr>"

definition demo_summary :: SummaryContent where
  "demo_summary =
     \<lparr> text_sc = js ''A short talk.'',
       code = [fenced, js ''y = 1''],
       links = [js ''https://www.youtube.com/watch?v=dQw4w9WgXcQ'',
                js ''https://www.youtube.com/channel/Ada''],
       imageReferences = [js ''https://img.youtube.com/vi/dQw4w9WgXcQ/maxresdefault.jpg''],
       timestamps = [k2, c2, k1, c1],
       keyPoints = [k1, k2],
       transcriptSummary = Some (js ''A short talk.'') \<rparr>"

definition degraded_summary :: SummaryContent where
  "degraded_summary =
     \<lparr> text_sc = fallbackText demo_details,
       code = [],
       links = [js ''https://www.youtube.com/watch?v=dQw4w9WgXcQ'',
                js ''https://www.youtube.com/channel/Ada''],
       imageReferences = [js ''https://img.youtube.com/vi/dQw4w9WgXcQ/maxresdefault.jpg''],
       timestamps = [],
       keyPoints = [],
       transcriptSummary = None \<rparr>"

text \<open>
  A library for runs of the renderer: an A4 page in millimetres, a font in which a hundred
  characters fill the width, no call that throws, and the document itself as the blob. A second one
  throws at the first call that sets the font size 14, after part of the header is drawn.
\<close>

function chunks :: "nat \<Rightarrow> jsstring \<Rightarrow> jsstring list" where
  "chunks k s = (if k = 0 \<or> length s \<le> k then [s] else take k s # chunks k (drop k s))"
  by pat_completeness auto
termination
  by (relation "measure (\<lambda>(k, s). length s)") auto

definition demo_lib :: "(pdf_call list) jsPDF" where
  "demo_lib =
     \<lparr> construct = None, pageHeight = 297,
       splitTextToSize = (\<lambda>d t w. Inr (chunks 100 t)),
       fault = (\<lambda>d c. None),
       output_blob = (\<lambda>d. Inr d) \<rparr>"

definition faulty_lib :: "(pdf_call list) jsPDF" where
  "faulty_lib =
     \<lparr> construct = None, pageHeight = 297,
       splitTextToSize = (\<lambda>d t w. Inr (chunks 100 t)),
       fault = (\<lambda>d c. if c = SetFontSize 14 then Some (TypeError (js ''font'')) else None),
       output_blob = (\<lambda>d. Inr d) \<rparr>"

text \<open>A summary of ten one-line paragraphs and one link of 600 characters.\<close>

definition long_link :: jsstring where
  "long_link = js ''https://www.youtube.com/redirect?q='' @ replicate 565 0x61"

definition ten_paragraphs :: jsstring where
  "ten_paragraphs =
     js ''a'' @ [0x0A, 0x0A] @ js ''b'' @ [0x0A, 0x0A] @ js ''c'' @ [0x0A, 0x0A] @ js ''d''
     @ [0x0A, 0x0A] @ js ''e'' @ [0x0A, 0x0A] @ js ''f'' @ [0x0A, 0x0A] @ js ''g''
     @ [0x0A, 0x0A] @ js ''h'' @ [0x0A, 0x0A] @ js ''i'' @ [0x0A, 0x0A] @ js ''j''"

definition long_link_summary :: SummaryContent where
  "long_link_summary =
     \<lparr> text_sc = ten_paragraphs, code = [], links = [long_link], imageReferences = [],
       timestamps = [], keyPoints = [], transcriptSummary = None \<rparr>"

text \<open>The document that the renderer draws for that summary with the first library.\<close>

definition long_link_doc :: "pdf_call list" where
  "long_link_doc =
     [SetFontSize 16, SetFont (js ''helvetica'') (js ''bold''),
      Text [js ''Video Summary: Intro''] 15 20,
      SetFontSize 12, SetFont (js ''helvetica'') (js ''normal''),
      Text [js ''Channel: Ada''] 15 35,
      Text [js ''Duration: 3:32''] 15 45,
      SetDrawColor 200 200 200, Line 15 60 195 60,
      SetFontSize 14, SetFont (js ''helvetica'') (js ''bold''),
      Text [js ''Summary''] 15 70,
      SetFontSize 10, SetFont (js ''helvetica'') (js ''normal''),
      Text [js ''a''] 15 80, Text [js ''b''] 15 96, Text [js ''c''] 15 112,
      Text [js ''d''] 15 128, Text [js ''e''] 15 144, Text [js ''f''] 15 160,
      Text [js ''g''] 15 176, Text [js ''h''] 15 192, Text [js ''i''] 15 208,
      Text [js ''j''] 15 224,
      SetFontSize 14, SetFont (js ''helvetica'') (js ''bold''),
      Text [js ''Referenced Links''] 15 240,
      SetFontSize 9, SetFont (js ''helvetica'') (js ''normal''),
      SetTextColor 0 0 255,
      Text [js ''https://www.youtube.com/redirect?q='' @ replicate 65 0x61,
            replicate 100 0x61, replicate 100 0x61, replicate 100 0x61, replicate 100 0x61,
            replicate 100 0x61]
        15 250,
      SetTextColor 0 0 0,
      SetProperties (js ''Intro - Summary'') (js ''YouTube Video Summary'') (js ''AI Summarizer'')
        (js ''youtube, summary, ai'') (js ''YouTube AI Summarizer'')]"

section \<open>Syntactic properties of patterns\<close>

text \<open>A pattern sets group \<open>k\<close> on every way of matching when \<open>sets_group k\<close> holds of it.\<close>

fun sets_group :: "nat \<Rightarrow> regex \<Rightarrow> bool" where
  "sets_group k (Grp j r) = (j = k \<or> sets_group k r)"
| "sets_group k (Seq r1 r2) = (sets_group k r1 \<or> sets_group k r2)"
| "sets_group k (Alt r1 r2) = (sets_group k r1 \<and> sets_group k r2)"
| "sets_group k r = False"

text \<open>
  A pattern needs a character with property \<open>P\<close> when every way of matching it reads one:
  it then matches nothing in an input without such characters.
\<close>

fun needs :: "(16 word \<Rightarrow> bool) \<Rightarrow> regex \<Rightarrow> bool" where
  "needs P (Chr c) = P c"
| "needs P (Seq r1 r2) = (needs P r1 \<or> needs P r2)"
| "needs P (Alt r1 r2) = (needs P r1 \<and> needs P r2)"
| "needs P (Grp k r) = needs P r"
| "needs P r = False"

text \<open>The characters \<open>/\<close> and \<open>?\<close>, one of which ends each URL shape of the pattern.\<close>

definition is_marker :: "16 word \<Rightarrow> bool" where
  "is_marker c = (c = 0x2F \<or> c = 0x3F)"

section \<open>Facts about the matcher\<close>

text \<open>Matching only consumes input: what is left is made of characters of what was there.\<close>

lemma matches_rest_subset:
  "st' \<in> set (matches n r st) \<Longrightarrow> set (fst st') \<subseteq> set (fst st)"
proof (induction n r st arbitrary: st' rule: matches.induct)
  case (7 n r1 r2 st)
  from "7.prems" obtain st1 where a: "st1 \<in> set (matches n r1 st)"
    and b: "st' \<in> set (matches n r2 st1)" by auto
  from "7.IH"(1)[OF a] "7.IH"(2)[OF a b] show ?case by blast
next
  case (10 n r s caps)
  from "10.prems" consider "st' = (s, caps)"
    | st1 where "st1 \<in> set (matches n r (s, caps))" "length (fst st1) < length s"
        "st' \<in> set (matches n (Star r) st1)"
    by (auto split: if_splits)
  then show ?case
  proof cases
    case 1
    then show ?thesis by simp
  next
    case 2
    from "10.IH"(1)[OF 2(1)] "10.IH"(2)[OF 2(1) 2(2) 2(3)] show ?thesis by auto
  qed
next
  case (8 n r1 r2 st)
  from "8.prems" have "st' \<in> set (matches n r1 st) \<or> st' \<in> set (matches n r2 st)" by simp
  with "8.IH" show ?case by blast
next
  case (9 n r st)
  from "9.prems" have "st' \<in> set (matches n r st) \<or> st' = st" by auto
  with "9.IH" show ?case by blast
next
  case (11 n j r s caps)
  from "11.prems" obtain s1 c1 where a: "(s1, c1) \<in> set (matches n r (s, caps))"
    and b: "fst st' = s1" by auto
  from "11.IH"[OF a] b show ?case by simp
qed (auto split: list.splits if_splits)

text \<open>Captures are only added: a group that is set stays set.\<close>

lemma matches_keeps_group:
  "st' \<in> set (matches n r st) \<Longrightarrow> map_of (snd st) k \<noteq> None \<Longrightarrow> map_of (snd st') k \<noteq> None"
proof (induction n r st arbitrary: st' rule: matches.induct)
  case (7 n r1 r2 st)
  from "7.prems"(1) obtain st1 where a: "st1 \<in> set (matches n r1 st)"
    and b: "st' \<in> set (matches n r2 st1)" by auto
  from "7.IH"(1)[OF a "7.prems"(2)] have "map_of (snd st1) k \<noteq> None" .
  from "7.IH"(2)[OF a b this] show ?case .
next
  case (10 n r s caps)
  from "10.prems"(1) consider "st' = (s, caps)"
    | st1 where "st1 \<in> set (matches n r (s, caps))" "length (fst st1) < length s"
        "st' \<in> set (matches n (Star r) st1)"
    by (auto split: if_splits)
  then show ?case
  proof cases
    case 1
    with "10.prems"(2) show ?thesis by simp
  next
    case 2
    from "10.IH"(1)[OF 2(1) "10.prems"(2)] have "map_of (snd st1) k \<noteq> None" .
    from "10.IH"(2)[OF 2(1) 2(2) 2(3) this] show ?thesis .
  qed
next
  case (11 n j r s caps)
  from "11.prems"(1) obtain s1 c1 where a: "(s1, c1) \<in> set (matches n r (s, caps))"
    and b: "st' = (s1, (j, take (length s - length s1) s) # c1)" by auto
  from "11.IH"[OF a "11.prems"(2)] have "map_of c1 k \<noteq> None" by simp
  with b show ?case by simp
qed (auto split: list.splits if_splits)

lemma matches_sets_group:
  "sets_group k r \<Longrightarrow> st' \<in> set (matches n r st) \<Longrightarrow> map_of (snd st') k \<noteq> None"
proof (induction r arbitrary: st st')
  case (Seq r1 r2)
  from Seq.prems(2) obtain st1 where a: "st1 \<in> set (matches n r1 st)"
    and b: "st' \<in> set (matches n r2 st1)" by auto
  show ?case
  proof (cases "sets_group k r2")
    case True
    from Seq.IH(2)[OF True b] show ?thesis .
  next
    case False
    with Seq.prems(1) have "sets_group k r1" by simp
    from Seq.IH(1)[OF this a] have "map_of (snd st1) k \<noteq> None" .
    from matches_keeps_group[OF b this] show ?thesis .
  qed
next
  case (Alt r1 r2)
  from Alt.prems(1) have g1: "sets_group k r1" and g2: "sets_group k r2" by simp_all
  from Alt.prems(2) have "st' \<in> set (matches n r1 st) \<or> st' \<in> set (matches n r2 st)" by simp
  with Alt.IH(1)[OF g1] Alt.IH(2)[OF g2] show ?case by blast
next
  case (Grp j r)
  obtain s caps where st: "st = (s, caps)" by (cases st)
  from Grp.prems(2) st obtain s1 c1 where a: "(s1, c1) \<in> set (matches n r (s, caps))"
    and b: "st' = (s1, (j, take (length s - length s1) s) # c1)" by auto
  show ?case
  proof (cases "j = k")
    case True
    with b show ?thesis by simp
  next
    case False
    with Grp.prems(1) have "sets_group k r" by simp
    from Grp.IH[OF this a] b show ?thesis by simp
  qed
qed simp_all

lemma exec_from_Some:
  "exec_from n r s = Some m \<Longrightarrow>
   \<exists>s0 s' caps. m = (0, take (length s0 - length s') s0) # caps \<and>
                (s', caps) \<in> set (matches n r (s0, []))"
proof (induction n r s rule: exec_from.induct)
  case (1 n r s)
  show ?case
  proof (cases "matches n r (s, [])")
    case Nil
    with "1.prems" obtain x s1 where s: "s = x # s1" and e: "exec_from n r s1 = Some m"
      by (cases s) auto
    from "1.IH"[OF Nil s e] show ?thesis .
  next
    case (Cons a as)
    obtain s' caps where a: "a = (s', caps)" by (cases a)
    with Cons "1.prems" have "m = (0, take (length s - length s') s) # caps" by simp
    moreover from Cons a have "(s', caps) \<in> set (matches n r (s, []))" by simp
    ultimately show ?thesis by blast
  qed
qed

lemma re_match_sets_group:
  assumes "sets_group k r" and "0 < k" and "re_match r s = Some m"
  shows "map_of m k \<noteq> None"
proof -
  from assms(3) obtain s0 s' caps where m: "m = (0, take (length s0 - length s') s0) # caps"
    and st: "(s', caps) \<in> set (matches (length s) r (s0, []))"
    unfolding re_match_def by (blast dest: exec_from_Some)
  from matches_sets_group[OF assms(1) st] have "map_of caps k \<noteq> None" by simp
  with m assms(2) show ?thesis by simp
qed

lemma sets_group_regExp: "sets_group 7 regExp"
  by (simp add: regExp_def)

text \<open>The resolver of the analysis service never reaches its throwing branch.\<close>

lemma extractVideoID_cases:
  "extractVideoID url = Inr None \<or> (\<exists>v. extractVideoID url = Inr (Some v) \<and> length v = 11)"
proof (cases "url = []")
  case True
  then show ?thesis by (simp add: extractVideoID_def)
next
  case False
  show ?thesis
  proof (cases "re_match regExp url")
    case None
    with False show ?thesis by (simp add: extractVideoID_def)
  next
    case (Some m)
    from re_match_sets_group[OF sets_group_regExp _ Some] obtain g where "map_of m 7 = Some g"
      by auto
    with False Some show ?thesis by (simp add: extractVideoID_def)
  qed
qed

lemma extractYouTubeVideoId_cases:
  "extractYouTubeVideoId url = None \<or> (\<exists>v. extractYouTubeVideoId url = Some v \<and> length v = 11)"
  by (auto simp: extractYouTubeVideoId_def split: option.splits)

text \<open>The branch for an extracted id: eleven id characters pass \<^verbatim>\<open>/^[a-zA-Z0-9_-]{11}$/\<close>.\<close>

lemma matches_rep_Cls:
  "k \<le> length s \<Longrightarrow> list_all p (take k s) \<Longrightarrow> matches n (rep k (Cls p)) (s, c) = [(drop k s, c)]"
proof (induction k arbitrary: s)
  case 0
  then show ?case by simp
next
  case (Suc k)
  then obtain x xs where s: "s = x # xs" by (cases s) auto
  with Suc.prems have "p x" "k \<le> length xs" "list_all p (take k xs)" by simp_all
  with Suc.IH[of xs] s show ?case by simp
qed

lemma re_test_idRegExp:
  assumes "length url = 11" and "list_all is_id_char url"
  shows "re_test idRegExp url"
proof -
  have "matches 11 (rep 11 (Cls is_id_char)) (url, []) = [(drop 11 url, [])]"
    using assms by (intro matches_rep_Cls) simp_all
  with assms(1) show ?thesis
    by (simp add: re_test_def re_match_def idRegExp_def)
qed

lemma matches_needs:
  "needs P r \<Longrightarrow> list_all (\<lambda>x. \<not> P x) (fst st) \<Longrightarrow> matches n r st = []"
proof (induction r arbitrary: st)
  case (Chr c)
  then show ?case by (cases st) (auto split: list.splits)
next
  case (Seq r1 r2)
  show ?case
  proof (cases "needs P r1")
    case True
    from Seq.IH(1)[OF True Seq.prems(2)] show ?thesis by simp
  next
    case False
    with Seq.prems(1) have n2: "needs P r2" by simp
    have "matches n r2 st1 = []" if "st1 \<in> set (matches n r1 st)" for st1
    proof -
      from matches_rest_subset[OF that] Seq.prems(2)
      have "list_all (\<lambda>x. \<not> P x) (fst st1)" by (auto simp: list_all_iff)
      from Seq.IH(2)[OF n2 this] show ?thesis .
    qed
    then show ?thesis by simp
  qed
next
  case (Alt r1 r2)
  then show ?case by simp
next
  case (Grp k r)
  then show ?case by (cases st) simp
qed simp_all

lemma needs_regExp: "needs is_marker regExp"
  by (simp add: regExp_def js_def is_marker_def)

lemma exec_from_needs:
  "needs P r \<Longrightarrow> list_all (\<lambda>x. \<not> P x) s \<Longrightarrow> exec_from n r s = None"
proof (induction s)
  case Nil
  from matches_needs[OF Nil(1), of "([], [])" n] show ?case by simp
next
  case (Cons x xs)
  from matches_needs[OF Cons.prems(1), of "(x # xs, [])" n] Cons.prems(2)
  have "matches n r (x # xs, []) = []" by simp
  moreover from Cons have "exec_from n r xs = None" by simp
  ultimately show ?case by simp
qed

lemma id_char_not_marker: "is_id_char c \<Longrightarrow> \<not> is_marker c"
  by (auto simp: is_id_char_def is_marker_def)

lemma extractVideoID_bare_id:
  assumes "list_all is_id_char url"
  shows "extractVideoID url = Inr None"
proof -
  from assms have "list_all (\<lambda>x. \<not> is_marker x) url"
    by (auto simp: list_all_iff dest: id_char_not_marker)
  from exec_from_needs[OF needs_regExp this] show ?thesis
    by (simp add: extractVideoID_def re_match_def)
qed

section \<open>The resolvers: claims\<close>

text \<open>
  C3 (as amended). For every bare id, eleven characters of \<open>[A-Za-z0-9_-]\<close>, the resolver of
  the storage service, \<open>extractYouTubeVideoId\<close>, returns the id unchanged. The resolver of the
  analysis service, \<open>extractVideoID\<close>, has no branch for a bare id and returns null for every
  one of them: each URL shape of its pattern ends in \<open>/\<close> or \<open>?\<close>, which no id contains.
\<close>

theorem bare_id_resolution:
  assumes "length url = 11" and "list_all is_id_char url"
  shows "extractYouTubeVideoId url = Some url \<and> extractVideoID url = Inr None"
proof -
  from assms(1) have "url \<noteq> []" by auto
  with assms re_test_idRegExp[OF assms] have "extractYouTubeVideoId url = Some url"
    by (simp add: extractYouTubeVideoId_def)
  with extractVideoID_bare_id[OF assms(2)] show ?thesis by simp
qed

theorem bare_id_resolution_witness:
  "length (js ''dQw4w9WgXcQ'') = 11 \<and> list_all is_id_char (js ''dQw4w9WgXcQ'') \<and>
   extractYouTubeVideoId (js ''dQw4w9WgXcQ'') = Some (js ''dQw4w9WgXcQ'') \<and>
   extractVideoID (js ''dQw4w9WgXcQ'') = Inr None"
proof -
  have a: "length (js ''dQw4w9WgXcQ'') = 11" by (simp add: js_def)
  have b: "list_all is_id_char (js ''dQw4w9WgXcQ'')" by (simp add: js_def is_id_char_def)
  from a b bare_id_resolution[OF a b] show ?thesis by blast
qed

text \<open>
  C3 as stated fails for \<open>extractVideoID\<close>: the bare id \<open>dQw4w9WgXcQ\<close> is resolved to null,
  not to itself.
\<close>

theorem extractVideoID_bare_id_counterexample:
  "length (js ''dQw4w9WgXcQ'') = 11 \<and> list_all is_id_char (js ''dQw4w9WgXcQ'') \<and>
   extractVideoID (js ''dQw4w9WgXcQ'') = Inr None \<and>
   extractVideoID (js ''dQw4w9WgXcQ'') \<noteq> Inr (Some (js ''dQw4w9WgXcQ''))"
  by (simp add: extractVideoID_def re_match_def regExp_def js_def is_id_char_def
      is_line_terminator_def is_word_char_def)

text \<open>
  C4. \<open>getEmbedUrl\<close> never throws and composes from \<open>extractVideoID\<close>: it is the embed prefix
  followed by the id when there is one and the empty string when the resolver returns null.
  For \<open>https://youtu.be/dQw4w9WgXcQ\<close> the resolver returns \<open>dQw4w9WgXcQ\<close> and \<open>getEmbedUrl\<close>
  returns \<open>https://www.youtube.com/embed/dQw4w9WgXcQ\<close>.
\<close>

theorem getEmbedUrl_composes:
  "(\<exists>r. extractVideoID url = Inr r \<and>
        getEmbedUrl url =
          Inr (case r of None \<Rightarrow> [] | Some v \<Rightarrow> js ''https://www.youtube.com/embed/'' @ v)) \<and>
   extractVideoID (js ''https://youtu.be/dQw4w9WgXcQ'') = Inr (Some (js ''dQw4w9WgXcQ'')) \<and>
   getEmbedUrl (js ''https://youtu.be/dQw4w9WgXcQ'') =
     Inr (js ''https://www.youtube.com/embed/dQw4w9WgXcQ'')"
proof -
  have sc: "extractVideoID (js ''https://youtu.be/dQw4w9WgXcQ'') = Inr (Some (js ''dQw4w9WgXcQ''))"
    by (simp add: extractVideoID_def re_match_def regExp_def js_def
        is_line_terminator_def is_word_char_def)
  have em: "getEmbedUrl (js ''https://youtu.be/dQw4w9WgXcQ'') =
     Inr (js ''https://www.youtube.com/embed/dQw4w9WgXcQ'')"
    by (simp add: getEmbedUrl_def sc) (simp add: js_def)
  from extractVideoID_cases[of url]
  have "\<exists>r. extractVideoID url = Inr r \<and>
        getEmbedUrl url =
          Inr (case r of None \<Rightarrow> [] | Some v \<Rightarrow> js ''https://www.youtube.com/embed/'' @ v)"
    by (auto simp: getEmbedUrl_def)
  with sc em show ?thesis by blast
qed

theorem getEmbedUrl_composes_witness:
  "extractVideoID (js ''not a video'') = Inr None \<and> getEmbedUrl (js ''not a video'') = Inr []"
proof -
  have a: "extractVideoID (js ''not a video'') = Inr None"
    by (simp add: extractVideoID_def re_match_def regExp_def js_def
        is_line_terminator_def is_word_char_def)
  from getEmbedUrl_composes[of "js ''not a video''"] a show ?thesis by auto
qed

text \<open>
  C10. Each resolver returns null or a string of exactly eleven code units, whatever the
  input; \<open>extractVideoID\<close> in particular never throws. Both return null on the empty string.
\<close>

theorem resolvers_null_or_eleven:
  "(extractVideoID url = Inr None \<or> (\<exists>v. extractVideoID url = Inr (Some v) \<and> length v = 11)) \<and>
   (extractYouTubeVideoId url = None \<or> (\<exists>v. extractYouTubeVideoId url = Some v \<and> length v = 11)) \<and>
   extractVideoID [] = Inr None \<and> extractYouTubeVideoId [] = None"
  using extractVideoID_cases[of url] extractYouTubeVideoId_cases[of url]
  by (simp add: extractVideoID_def extractYouTubeVideoId_def)

theorem resolvers_null_or_eleven_witness:
  "extractVideoID (js ''https://www.youtube.com/embed/short'') = Inr None \<and>
   (extractYouTubeVideoId (js ''https://www.youtube.com/embed/short'') = None \<or>
    (\<exists>v. extractYouTubeVideoId (js ''https://www.youtube.com/embed/short'') = Some v \<and>
         length v = 11))"
proof -
  have a: "extractVideoID (js ''https://www.youtube.com/embed/short'') = Inr None"
    by (simp add: extractVideoID_def re_match_def regExp_def js_def
        is_line_terminator_def is_word_char_def)
  from resolvers_null_or_eleven[of "js ''https://www.youtube.com/embed/short''"] a
  show ?thesis by blast
qed

section \<open>The analysis service: facts\<close>

text \<open>
  With the comparator \<open>a.timestamp - b.timestamp\<close> the sort of the engine is the stable
  insertion sort of the library on the key \<open>timestamp\<close>.
\<close>

lemma insert_by_insort: "insert_by (\<lambda>a b. f a - f b) x xs = insort_key f x xs"
  by (induction xs) simp_all

lemma array_sort_sort_key: "array_sort (\<lambda>a b. f a - f b) xs = sort_key f xs"
proof -
  have "insert_by (\<lambda>a b. f a - f b) = insort_key f"
    by (intro ext) (rule insert_by_insort)
  then show ?thesis by (simp add: array_sort_def sort_key_def)
qed

lemma or_else_nonempty: "b \<noteq> [] \<Longrightarrow> or_else a b \<noteq> []"
  by (simp add: or_else_def split: option.splits)

lemma fallbackText_nonempty: "fallbackText videoDetails \<noteq> []"
  by (simp add: fallbackText_def js_def)

lemma processCaptions_processed:
  assumes "VITE_YOUTUBE_API_KEY sv = Some apiKey" and "apiKey \<noteq> []"
    and "fetchCaptions sv videoId apiKey = Inr captions'"
    and "processTranscript sv captions' = Inr pc"
  shows "processCaptions sv videoId =
           (Some (summary pc), sort_key timestamp (keyPoints_pc pc @ codeBlocks pc),
            keyPoints_pc pc, map text_tsc (codeBlocks pc))"
  using assms by (simp add: processCaptions_def array_sort_sort_key)

lemma processCaptions_failed:
  assumes "VITE_YOUTUBE_API_KEY sv = Some apiKey" and "apiKey \<noteq> []"
    and "fetchCaptions sv videoId apiKey = Inl e \<or>
         (\<exists>c. fetchCaptions sv videoId apiKey = Inr c \<and> processTranscript sv c = Inl e)"
  shows "processCaptions sv videoId = (None, [], [], [])"
  using assms by (auto simp: processCaptions_def)

lemma generateSummary_Inr:
  assumes "generateSummary sv videoId = Inr s"
  shows "\<exists>videoDetails. getVideoDetails sv (watchUrl videoId) = Inr videoDetails \<and>
           text_sc s = or_else (fst (processCaptions sv videoId)) (fallbackText videoDetails) \<and>
           code s = snd (snd (snd (processCaptions sv videoId))) \<and>
           imageReferences s = [thumbnail videoDetails] \<and>
           timestamps s = fst (snd (processCaptions sv videoId)) \<and>
           keyPoints s = fst (snd (snd (processCaptions sv videoId))) \<and>
           transcriptSummary s = fst (processCaptions sv videoId)"
proof (cases "getVideoDetails sv (watchUrl videoId)")
  case (Inl e)
  with assms show ?thesis by (simp add: generateSummary_def Let_def)
next
  case (Inr videoDetails)
  obtain a b c d where p: "processCaptions sv videoId = (a, b, c, d)"
    by (cases "processCaptions sv videoId") auto
  from assms Inr p have "s = \<lparr> text_sc = or_else a (fallbackText videoDetails), code = d,
      links = [watchUrl videoId, js ''https://www.youtube.com/channel/'' @ channel videoDetails],
      imageReferences = [thumbnail videoDetails], timestamps = b, keyPoints = c,
      transcriptSummary = a \<rparr>"
    by (simp add: generateSummary_def Let_def)
  with Inr p show ?thesis by simp
qed

lemma generateSummary_details:
  assumes "getVideoDetails sv (watchUrl videoId) = Inr videoDetails"
    and "processCaptions sv videoId = (a, b, c, d)"
  shows "generateSummary sv videoId =
     Inr \<lparr> text_sc = or_else a (fallbackText videoDetails), code = d,
           links = [watchUrl videoId, js ''https://www.youtube.com/channel/'' @ channel videoDetails],
           imageReferences = [thumbnail videoDetails], timestamps = b, keyPoints = c,
           transcriptSummary = a \<rparr>"
  using assms by (simp add: generateSummary_def Let_def)

lemma extract_demo: "extractVideoID (watchUrl demo_id) = Inr (Some demo_id)"
  by (simp add: extractVideoID_def re_match_def regExp_def watchUrl_def demo_id_def js_def
      is_line_terminator_def is_word_char_def)

lemma details_demo:
  "fetch_json sv = (\<lambda>u. Inr demo_oembed) \<Longrightarrow>
   getVideoDetails sv (watchUrl demo_id) = Inr demo_details"
  by (simp add: getVideoDetails_def extract_demo)
     (simp add: demo_id_def demo_oembed_def demo_details_def or_else_def js_def)

lemma demo_run: "generateSummary demo_services demo_id = Inr demo_summary"
proof -
  have d: "getVideoDetails demo_services (watchUrl demo_id) = Inr demo_details"
    by (rule details_demo) (simp add: demo_services_def)
  have p: "processCaptions demo_services demo_id =
      (Some (js ''A short talk.''), [k2, c2, k1, c1], [k1, k2], [fenced, js ''y = 1''])"
    by (simp add: processCaptions_def demo_services_def demo_processed_def array_sort_def
        k1_def k2_def c1_def c2_def js_def)
  show ?thesis
    unfolding generateSummary_details[OF d p]
    by (simp add: demo_summary_def demo_details_def or_else_def watchUrl_def demo_id_def js_def)
qed

lemma degraded_run: "generateSummary failing_services demo_id = Inr degraded_summary"
proof -
  have d: "getVideoDetails failing_services (watchUrl demo_id) = Inr demo_details"
    by (rule details_demo) (simp add: failing_services_def)
  have p: "processCaptions failing_services demo_id = (None, [], [], [])"
    by (simp add: processCaptions_def failing_services_def js_def)
  show ?thesis
    unfolding generateSummary_details[OF d p]
    by (simp add: degraded_summary_def demo_details_def or_else_def watchUrl_def demo_id_def js_def)
qed

lemma silent_run:
  "generateSummary silent_services demo_id = Inr (degraded_summary\<lparr> transcriptSummary := Some [] \<rparr>)"
proof -
  have d: "getVideoDetails silent_services (watchUrl demo_id) = Inr demo_details"
    by (rule details_demo) (simp add: silent_services_def)
  have p: "processCaptions silent_services demo_id = (Some [], [], [], [])"
    by (simp add: processCaptions_def silent_services_def array_sort_def js_def)
  show ?thesis
    unfolding generateSummary_details[OF d p]
    by (simp add: degraded_summary_def demo_details_def or_else_def watchUrl_def demo_id_def js_def)
qed

lemma demo_env:
  "VITE_YOUTUBE_API_KEY demo_services = Some (js ''key'')" "js ''key'' \<noteq> []"
  "fetchCaptions demo_services demo_id (js ''key'') = Inr ()"
  "processTranscript demo_services () = Inr demo_processed"
  by (simp_all add: demo_services_def js_def)

lemma cleanedCode_fenced: "cleanedCode fenced = js ''x'' @ [0x0A]"
  by (simp add: cleanedCode_def fenced_def fenceRegExp_def js_def is_word_char_def)

lemma degraded_fields:
  "transcriptSummary degraded_summary = None" "text_sc degraded_summary = fallbackText demo_details"
  "code degraded_summary = []" "timestamps degraded_summary = []" "keyPoints degraded_summary = []"
  by (simp_all add: degraded_summary_def)

lemma failing_env:
  "VITE_YOUTUBE_API_KEY failing_services = Some (js ''key'')"
  "fetchCaptions failing_services demo_id (js ''key'') = Inl (Error (js ''captions unavailable''))"
  "getVideoDetails failing_services (watchUrl demo_id) = Inr demo_details"
  by (simp_all add: failing_services_def details_demo)

section \<open>The analysis service: claims\<close>

text \<open>
  C1. When the caption service has returned its result, the \<open>timestamps\<close> of the summary are
  the stable sort by ascending timestamp of the key points followed by the code blocks: they are
  non-decreasing, hold every item as often as the two lists together do (nothing is
  deduplicated), keep the items of one timestamp in their original order, and contain every
  key point of the summary.
\<close>

theorem timestamps_stable_sort:
  assumes "generateSummary sv videoId = Inr s"
    and "VITE_YOUTUBE_API_KEY sv = Some apiKey" and "apiKey \<noteq> []"
    and "fetchCaptions sv videoId apiKey = Inr captions'"
    and "processTranscript sv captions' = Inr pc"
  shows "timestamps s = sort_key timestamp (keyPoints_pc pc @ codeBlocks pc) \<and>
         sorted (map timestamp (timestamps s)) \<and>
         mset (timestamps s) = mset (keyPoints_pc pc) + mset (codeBlocks pc) \<and>
         (\<forall>t. filter (\<lambda>x. timestamp x = t) (timestamps s) =
              filter (\<lambda>x. timestamp x = t) (keyPoints_pc pc @ codeBlocks pc)) \<and>
         keyPoints s = keyPoints_pc pc \<and>
         set (keyPoints s) \<subseteq> set (timestamps s)"
proof -
  from generateSummary_Inr[OF assms(1)]
  have "timestamps s = fst (snd (processCaptions sv videoId))"
    and "keyPoints s = fst (snd (snd (processCaptions sv videoId)))" by blast+
  then have ts: "timestamps s = sort_key timestamp (keyPoints_pc pc @ codeBlocks pc)"
    and kp: "keyPoints s = keyPoints_pc pc"
    by (simp_all add: processCaptions_processed[OF assms(2-5)])
  have "sorted (map timestamp (sort_key timestamp (keyPoints_pc pc @ codeBlocks pc)))"
    by (rule sorted_sort_key)
  moreover have "mset (sort_key timestamp (keyPoints_pc pc @ codeBlocks pc))
      = mset (keyPoints_pc pc) + mset (codeBlocks pc)"
    by simp
  moreover have "\<forall>t. filter (\<lambda>x. timestamp x = t) (sort_key timestamp (keyPoints_pc pc @ codeBlocks pc)) =
              filter (\<lambda>x. timestamp x = t) (keyPoints_pc pc @ codeBlocks pc)"
    by (simp only: sort_key_stable) simp
  moreover have "set (keyPoints_pc pc) \<subseteq> set (sort_key timestamp (keyPoints_pc pc @ codeBlocks pc))"
    by simp
  ultimately show ?thesis unfolding ts kp by blast
qed

theorem timestamps_stable_sort_witness:
  "generateSummary demo_services demo_id = Inr demo_summary \<and>
   timestamps demo_summary = [k2, c2, k1, c1] \<and>
   keyPoints demo_summary = [k1, k2] \<and>
   (timestamps demo_summary =
      sort_key timestamp (keyPoints_pc demo_processed @ codeBlocks demo_processed) \<and>
    sorted (map timestamp (timestamps demo_summary)) \<and>
    mset (timestamps demo_summary) =
      mset (keyPoints_pc demo_processed) + mset (codeBlocks demo_processed) \<and>
    (\<forall>t. filter (\<lambda>x. timestamp x = t) (timestamps demo_summary) =
         filter (\<lambda>x. timestamp x = t) (keyPoints_pc demo_processed @ codeBlocks demo_processed)) \<and>
    keyPoints demo_summary = keyPoints_pc demo_processed \<and>
    set (keyPoints demo_summary) \<subseteq> set (timestamps demo_summary))"
proof -
  have a: "timestamps demo_summary = [k2, c2, k1, c1]" by (simp add: demo_summary_def)
  have b: "keyPoints demo_summary = [k1, k2]" by (simp add: demo_summary_def)
  note t = timestamps_stable_sort[OF demo_run demo_env]
  show ?thesis by (rule conjI[OF demo_run conjI[OF a conjI[OF b t]]])
qed

text \<open>
  C2 (as amended). When the caption service has returned its result, \<open>code\<close> has the length of
  \<open>codeBlocks\<close> and \<open>code[i]\<close> is the text of \<open>codeBlocks[i]\<close> as it is: \<open>generateSummary\<close>
  strips nothing.
\<close>

theorem code_is_verbatim:
  assumes "generateSummary sv videoId = Inr s"
    and "VITE_YOUTUBE_API_KEY sv = Some apiKey" and "apiKey \<noteq> []"
    and "fetchCaptions sv videoId apiKey = Inr captions'"
    and "processTranscript sv captions' = Inr pc"
  shows "length (code s) = length (codeBlocks pc) \<and>
         (\<forall>i < length (codeBlocks pc). code s ! i = text_tsc (codeBlocks pc ! i))"
proof -
  from generateSummary_Inr[OF assms(1)]
  have "code s = snd (snd (snd (processCaptions sv videoId)))" by blast
  then have "code s = map text_tsc (codeBlocks pc)"
    by (simp add: processCaptions_processed[OF assms(2-5)])
  then show ?thesis by simp
qed

theorem code_is_verbatim_witness:
  "generateSummary demo_services demo_id = Inr demo_summary \<and>
   code demo_summary = [fenced, js ''y = 1''] \<and>
   length (code demo_summary) = length (codeBlocks demo_processed) \<and>
   code demo_summary ! 0 = text_tsc (codeBlocks demo_processed ! 0) \<and>
   code demo_summary ! 1 = text_tsc (codeBlocks demo_processed ! 1)"
proof -
  have a: "code demo_summary = [fenced, js ''y = 1'']" by (simp add: demo_summary_def)
  have n: "(0::nat) < length (codeBlocks demo_processed)" "(1::nat) < length (codeBlocks demo_processed)"
    by (simp_all add: demo_processed_def)
  note t = code_is_verbatim[OF demo_run demo_env]
  from t have l: "length (code demo_summary) = length (codeBlocks demo_processed)" by (rule conjunct1)
  from t n have i0: "code demo_summary ! 0 = text_tsc (codeBlocks demo_processed ! 0)"
    and i1: "code demo_summary ! 1 = text_tsc (codeBlocks demo_processed ! 1)" by blast+
  show ?thesis by (rule conjI[OF demo_run conjI[OF a conjI[OF l conjI[OF i0 i1]]]])
qed

text \<open>
  C2 as stated fails: the text of a code block that is fenced arrives in \<open>code\<close> with its
  fences, and differs from the text without them, which is what the renderer computes with
  \<open>cleanedCode\<close> when it draws the snippet.
\<close>

theorem code_keeps_fences_counterexample:
  "generateSummary demo_services demo_id = Inr demo_summary \<and>
   processTranscript demo_services () = Inr demo_processed \<and>
   text_tsc (codeBlocks demo_processed ! 0) = fenced \<and>
   cleanedCode fenced = js ''x'' @ [0x0A] \<and>
   code demo_summary ! 0 = fenced \<and>
   code demo_summary ! 0 \<noteq> cleanedCode (text_tsc (codeBlocks demo_processed ! 0))"
proof -
  have a: "text_tsc (codeBlocks demo_processed ! 0) = fenced"
    by (simp add: demo_processed_def c1_def)
  have b: "code demo_summary ! 0 = fenced" by (simp add: demo_summary_def)
  have c: "fenced \<noteq> js ''x'' @ [0x0A]" by (simp add: fenced_def js_def)
  from b c cleanedCode_fenced a have d:
    "code demo_summary ! 0 \<noteq> cleanedCode (text_tsc (codeBlocks demo_processed ! 0))"
    by simp
  show ?thesis
    by (rule conjI[OF demo_run conjI[OF demo_env(4) conjI[OF a conjI[OF cleanedCode_fenced conjI[OF b d]]]]])
qed

text \<open>
  C5. The text of every summary that \<open>generateSummary\<close> returns is non-empty: it is the
  transcript summary when that is a non-empty string, and the fallback text of the video
  details when it is undefined or empty. The fallback text is one template, a non-empty
  opening followed by the title, fixed words, the channel and fixed words.
\<close>

theorem summary_text_nonempty:
  assumes "generateSummary sv videoId = Inr s"
  shows "text_sc s \<noteq> [] \<and>
         (\<exists>videoDetails. getVideoDetails sv (watchUrl videoId) = Inr videoDetails \<and>
            text_sc s =
              (case transcriptSummary s of
                 None \<Rightarrow> fallbackText videoDetails
               | Some t \<Rightarrow> if t \<noteq> [] then t else fallbackText videoDetails)) \<and>
         (\<exists>a b c. a \<noteq> [] \<and>
            (\<forall>videoDetails. fallbackText videoDetails =
                 a @ title videoDetails @ b @ channel videoDetails @ c))"
proof -
  from generateSummary_Inr[OF assms] obtain videoDetails where
    d: "getVideoDetails sv (watchUrl videoId) = Inr videoDetails"
    and t: "text_sc s = or_else (fst (processCaptions sv videoId)) (fallbackText videoDetails)"
    and ts: "transcriptSummary s = fst (processCaptions sv videoId)"
    by blast
  from t have ne: "text_sc s \<noteq> []" by (simp add: or_else_nonempty fallbackText_nonempty)
  from t ts have eq: "text_sc s =
              (case transcriptSummary s of
                 None \<Rightarrow> fallbackText videoDetails
               | Some t \<Rightarrow> if t \<noteq> [] then t else fallbackText videoDetails)"
    by (simp add: or_else_def)
  have "js ''This video titled '' @ [0x22] \<noteq> [] \<and>
        (\<forall>videoDetails. fallbackText videoDetails =
           (js ''This video titled '' @ [0x22]) @ title videoDetails @ ([0x22] @ js '' by '')
           @ channel videoDetails @ (js '' provides a comprehensive overview of the topic.'' @ [0x0A] @ js ''      '' @ [0x0A]
     @ js ''The content is structured to help viewers understand the subject matter through clear explanations and examples. The presenter breaks down complex concepts into digestible segments, making it easier for the audience to follow along.''))"
    by (simp add: fallbackText_def)
  then have tpl: "\<exists>a b c. a \<noteq> [] \<and>
            (\<forall>videoDetails. fallbackText videoDetails =
                 a @ title videoDetails @ b @ channel videoDetails @ c)"
    by blast
  from ne d eq tpl show ?thesis by blast
qed

theorem summary_text_nonempty_witness:
  "generateSummary failing_services demo_id = Inr degraded_summary \<and>
   transcriptSummary degraded_summary = None \<and>
   text_sc degraded_summary = fallbackText demo_details \<and>
   text_sc degraded_summary \<noteq> [] \<and>
   generateSummary silent_services demo_id =
     Inr (degraded_summary\<lparr> transcriptSummary := Some [] \<rparr>) \<and>
   text_sc (degraded_summary\<lparr> transcriptSummary := Some [] \<rparr>) \<noteq> [] \<and>
   generateSummary demo_services demo_id = Inr demo_summary \<and>
   text_sc demo_summary = js ''A short talk.''"
proof -
  from summary_text_nonempty[OF degraded_run] have a: "text_sc degraded_summary \<noteq> []" by blast
  from summary_text_nonempty[OF silent_run]
  have b: "text_sc (degraded_summary\<lparr> transcriptSummary := Some [] \<rparr>) \<noteq> []" by blast
  have c: "text_sc demo_summary = js ''A short talk.''" by (simp add: demo_summary_def)
  show ?thesis
    by (rule conjI[OF degraded_run conjI[OF degraded_fields(1) conjI[OF degraded_fields(2)
        conjI[OF a conjI[OF silent_run conjI[OF b conjI[OF demo_run c]]]]]]])
qed

text \<open>
  C6. When the video details are there and the API key is set, an error thrown by
  \<open>fetchCaptions\<close> or by \<open>processTranscript\<close> does not leave \<open>generateSummary\<close>: it returns a
  summary with no code, no timestamps, no key points, and the fallback text, which is not
  empty. (The caption service is called only after the details have been fetched, so its
  failing presupposes them.)
\<close>

theorem caption_failure_recovered:
  assumes "getVideoDetails sv (watchUrl videoId) = Inr videoDetails"
    and "VITE_YOUTUBE_API_KEY sv = Some apiKey" and "apiKey \<noteq> []"
    and "fetchCaptions sv videoId apiKey = Inl e \<or>
         (\<exists>c. fetchCaptions sv videoId apiKey = Inr c \<and> processTranscript sv c = Inl e)"
  shows "\<exists>s. generateSummary sv videoId = Inr s \<and> code s = [] \<and> timestamps s = [] \<and>
             keyPoints s = [] \<and> text_sc s = fallbackText videoDetails \<and> text_sc s \<noteq> []"
proof -
  note p = processCaptions_failed[OF assms(2-4)]
  from generateSummary_details[OF assms(1) p] fallbackText_nonempty[of videoDetails]
  show ?thesis by (simp add: or_else_def)
qed

theorem caption_failure_recovered_witness:
  "getVideoDetails failing_services (watchUrl demo_id) = Inr demo_details \<and>
   fetchCaptions failing_services demo_id (js ''key'') = Inl (Error (js ''captions unavailable'')) \<and>
   (\<exists>s. generateSummary failing_services demo_id = Inr s \<and> code s = [] \<and> timestamps s = [] \<and>
        keyPoints s = [] \<and> text_sc s = fallbackText demo_details \<and> text_sc s \<noteq> [])"
proof -
  have k: "js ''key'' \<noteq> []" by (simp add: js_def)
  have f: "fetchCaptions failing_services demo_id (js ''key'') = Inl (Error (js ''captions unavailable'')) \<or>
     (\<exists>c. fetchCaptions failing_services demo_id (js ''key'') = Inr c \<and>
          processTranscript failing_services c = Inl (Error (js ''captions unavailable'')))"
    using failing_env(2) by blast
  note t = caption_failure_recovered[OF failing_env(3) failing_env(1) k f]
  show ?thesis by (rule conjI[OF failing_env(3) conjI[OF failing_env(2) t]])
qed

text \<open>
  C9. The image references that \<open>handleSubmit\<close> assembles from a summary with the single
  reference \<open>t\<close> are \<open>t\<close> followed by the extra references in their order; and the single
  reference of a summary of \<open>generateSummary\<close> is the thumbnail of the video details. The
  witness is the scenario of the specification.
\<close>

theorem thumbnail_first:
  "(imageReferences s = [t] \<longrightarrow>
      imageReferences (combinedSummary s extraImageRefs) = t # extraImageRefs) \<and>
   (generateSummary sv videoId = Inr s' \<longrightarrow>
      (\<exists>videoDetails. getVideoDetails sv (watchUrl videoId) = Inr videoDetails \<and>
         imageReferences (combinedSummary s' extraImageRefs) = thumbnail videoDetails # extraImageRefs))"
proof (intro conjI impI)
  assume "imageReferences s = [t]"
  then show "imageReferences (combinedSummary s extraImageRefs) = t # extraImageRefs"
    by (simp add: combinedSummary_def)
next
  assume "generateSummary sv videoId = Inr s'"
  from generateSummary_Inr[OF this] obtain videoDetails where
    "getVideoDetails sv (watchUrl videoId) = Inr videoDetails"
    "imageReferences s' = [thumbnail videoDetails]" by blast
  then show "\<exists>videoDetails. getVideoDetails sv (watchUrl videoId) = Inr videoDetails \<and>
         imageReferences (combinedSummary s' extraImageRefs) = thumbnail videoDetails # extraImageRefs"
    by (simp add: combinedSummary_def)
qed

theorem thumbnail_first_witness:
  "imageReferences (demo_summary\<lparr> imageReferences := [js ''thumb.jpg''] \<rparr>) = [js ''thumb.jpg''] \<and>
   imageReferences (combinedSummary (demo_summary\<lparr> imageReferences := [js ''thumb.jpg''] \<rparr>)
                      [js ''video-images/a.png'', js ''https://youtu.be/xyz'']) =
     [js ''thumb.jpg'', js ''video-images/a.png'', js ''https://youtu.be/xyz''] \<and>
   generateSummary demo_services demo_id = Inr demo_summary \<and>
   imageReferences (combinedSummary demo_summary [js ''video-images/a.png'']) =
     [thumbnail demo_details, js ''video-images/a.png'']"
proof -
  have a: "imageReferences (demo_summary\<lparr> imageReferences := [js ''thumb.jpg''] \<rparr>) = [js ''thumb.jpg'']"
    by simp
  note t = thumbnail_first[of "demo_summary\<lparr> imageReferences := [js ''thumb.jpg''] \<rparr>" "js ''thumb.jpg''"
      "[js ''video-images/a.png'', js ''https://youtu.be/xyz'']" demo_services demo_id demo_summary]
  from t a have b: "imageReferences (combinedSummary (demo_summary\<lparr> imageReferences := [js ''thumb.jpg''] \<rparr>)
                      [js ''video-images/a.png'', js ''https://youtu.be/xyz'']) =
     [js ''thumb.jpg'', js ''video-images/a.png'', js ''https://youtu.be/xyz'']" by blast
  have d: "getVideoDetails demo_services (watchUrl demo_id) = Inr demo_details"
    by (rule details_demo) (simp add: demo_services_def)
  from thumbnail_first[of demo_summary _ "[js ''video-images/a.png'']" demo_services demo_id demo_summary]
    demo_run d
  have c: "imageReferences (combinedSummary demo_summary [js ''video-images/a.png'']) =
     [thumbnail demo_details, js ''video-images/a.png'']" by auto
  show ?thesis by (rule conjI[OF a conjI[OF b conjI[OF demo_run c]]])
qed

section \<open>The PDF renderer: facts\<close>

lemma steps_append:
  "steps (fs @ gs) st = (case steps fs st of Inl e \<Rightarrow> Inl e | Inr st' \<Rightarrow> steps gs st')"
  by (induction fs arbitrary: st) (simp_all split: sum.splits)

lemma call_Inr: "call lib c st = Inr st' \<Longrightarrow> doc st' = doc st @ [c]"
  by (auto simp: call_def split: option.splits)

lemmas pdf_defs = generatePDF_try_def headerSection_def summarySection_def
  codeSection_def linksSection_def imagesSection_def writeParagraph_def writeLink_def
  writeImage_def writeCodeSnippet_def checkPageBreak_def call_def text_at_y_def line_at_y_def
  advance_def lineHeight_def maxWidth_def

lemma faulty_try:
  "generatePDF_try faulty_lib demo_details long_link_summary = Inl (TypeError (js ''font''))"
  by (simp add: pdf_defs faulty_lib_def demo_details_def long_link_summary_def)

lemma ten_paragraphs_split:
  "split_paragraphs [] ten_paragraphs =
     [js ''a'', js ''b'', js ''c'', js ''d'', js ''e'', js ''f'', js ''g'', js ''h'', js ''i'', js ''j'']"
  by (simp add: ten_paragraphs_def js_def)

lemma chunks_long_link:
  "chunks 100 long_link =
     [js ''https://www.youtube.com/redirect?q='' @ replicate 65 0x61,
      replicate 100 0x61, replicate 100 0x61, replicate 100 0x61, replicate 100 0x61,
      replicate 100 0x61]"
  by (simp add: long_link_def js_def)

lemma long_link_try:
  "generatePDF_try demo_lib demo_details long_link_summary = Inr long_link_doc"
  by (simp add: pdf_defs demo_lib_def demo_details_def long_link_summary_def
      ten_paragraphs_def long_link_def long_link_doc_def js_def)

text \<open>
  What the body of each loop does to the document and the cursor when it does not throw. A
  paragraph and an image entry are checked with the height they take. A code snippet is checked
  with 5 less than it takes, and a link with 15 whatever the number of its lines.
\<close>

lemma writeParagraph_rule:
  assumes "splitTextToSize lib (doc st) paragraph maxWidth = Inr splitText"
    and "writeParagraph lib paragraph st = Inr st'"
  shows "if yPosition st + (real (length splitText) * 6 + 10) > pageHeight lib - 20
         then doc st' = doc st @ [AddPage, Text splitText 15 20] \<and>
              yPosition st' = 20 + (real (length splitText) * 6 + 10)
         else doc st' = doc st @ [Text splitText 15 (yPosition st)] \<and>
              yPosition st' = yPosition st + (real (length splitText) * 6 + 10)"
  using assms
  by (auto simp: writeParagraph_def checkPageBreak_def call_def text_at_y_def advance_def
      lineHeight_def split: option.splits if_splits)

lemma writeImage_rule:
  assumes "writeImage lib image' st = Inr st'"
  shows "if yPosition st + 10 > pageHeight lib - 20
         then doc st' = doc st @ [AddPage, Text [[0xE2, 0x20AC, 0xA2, 0x20] @ image'] 15 20] \<and>
              yPosition st' = 20 + 10
         else doc st' = doc st @ [Text [[0xE2, 0x20AC, 0xA2, 0x20] @ image'] 15 (yPosition st)] \<and>
              yPosition st' = yPosition st + 10"
  using assms
  by (auto simp: writeImage_def checkPageBreak_def call_def text_at_y_def advance_def
      lineHeight_def split: option.splits if_splits)

lemma writeLink_rule:
  assumes "writeLink lib link st = Inr st'"
  shows "\<exists>splitLink.
         (if yPosition st + 15 > pageHeight lib - 20
          then splitTextToSize lib (doc st @ [AddPage]) link maxWidth = Inr splitLink \<and>
               doc st' = doc st @ [AddPage, Text splitLink 15 20] \<and>
               yPosition st' = 20 + (real (length splitLink) * 6 + 2)
          else splitTextToSize lib (doc st) link maxWidth = Inr splitLink \<and>
               doc st' = doc st @ [Text splitLink 15 (yPosition st)] \<and>
               yPosition st' = yPosition st + (real (length splitLink) * 6 + 2))"
  using assms
  by (auto simp: writeLink_def checkPageBreak_def call_def text_at_y_def advance_def
      lineHeight_def split: option.splits if_splits sum.splits)

lemma writeCodeSnippet_rule:
  assumes "splitTextToSize lib (doc st) (cleanedCode codeSnippet) maxWidth = Inr splitCode"
    and "writeCodeSnippet lib codeSnippet st = Inr st'"
  shows "if yPosition st + (real (length splitCode) * 5 + 20) > pageHeight lib - 20
         then doc st' = doc st @ [AddPage, SetFontSize 10,
                  SetFont (js ''helvetica'') (js ''italic''),
                  Text [js ''Language: '' @ language_of codeSnippet] 15 20,
                  SetFontSize 8, SetFont (js ''courier'') (js ''normal''),
                  Text splitCode 15 30] \<and>
              yPosition st' = 20 + (real (length splitCode) * 5 + 25)
         else doc st' = doc st @ [SetFontSize 10,
                  SetFont (js ''helvetica'') (js ''italic''),
                  Text [js ''Language: '' @ language_of codeSnippet] 15 (yPosition st),
                  SetFontSize 8, SetFont (js ''courier'') (js ''normal''),
                  Text splitCode 15 (yPosition st + 10)] \<and>
              yPosition st' = yPosition st + (real (length splitCode) * 5 + 25)"
  using assms
  by (auto simp: writeCodeSnippet_def checkPageBreak_def call_def text_at_y_def advance_def
      lineHeight_def split: option.splits if_splits)

section \<open>The PDF renderer: claims\<close>

text \<open>
  C7. \<open>generatePDF\<close> either returns the blob, and then the body of its \<open>try\<close> ran to its end:
  the blob is the output of a document whose last call is \<open>setProperties\<close>; or it throws
  \<open>Error('Failed to generate PDF')\<close>, and it does so whatever the body threw. There is no third
  outcome, and no blob when it throws.
\<close>

theorem generatePDF_one_error:
  "(\<exists>pdfBlob d. generatePDF lib videoDetails summary' = Inr pdfBlob \<and>
       generatePDF_try lib videoDetails summary' = Inr pdfBlob \<and>
       output_blob lib d = Inr pdfBlob \<and> d \<noteq> [] \<and>
       last d = SetProperties (title videoDetails @ js '' - Summary'')
                  (js ''YouTube Video Summary'') (js ''AI Summarizer'')
                  (js ''youtube, summary, ai'') (js ''YouTube AI Summarizer'')) \<or>
   (generatePDF lib videoDetails summary' = Inl (Error (js ''Failed to generate PDF'')) \<and>
    (\<exists>e. generatePDF_try lib videoDetails summary' = Inl e))"
proof (cases "generatePDF_try lib videoDetails summary'")
  case (Inl e)
  then show ?thesis by (simp add: generatePDF_def)
next
  case (Inr pdfBlob)
  let ?c = "SetProperties (title videoDetails @ js '' - Summary'')
                  (js ''YouTube Video Summary'') (js ''AI Summarizer'')
                  (js ''youtube, summary, ai'') (js ''YouTube AI Summarizer'')"
  let ?fs = "headerSection lib videoDetails @ summarySection lib summary'
             @ codeSection lib summary' @ linksSection lib summary' @ imagesSection lib summary'"
  from Inr obtain st where c: "construct lib = None"
    and s: "steps (?fs @ [call lib ?c]) \<lparr> doc = [], yPosition = 20 \<rparr> = Inr st"
    and o: "output_blob lib (doc st) = Inr pdfBlob"
    by (auto simp: generatePDF_try_def split: option.splits sum.splits)
  from s obtain st1 where "call lib ?c st1 = Inr st"
    unfolding steps_append by (auto split: sum.splits)
  then have "doc st = doc st1 @ [?c]" by (rule call_Inr)
  then have "doc st \<noteq> []" "last (doc st) = ?c" by simp_all
  with Inr o show ?thesis by (auto simp: generatePDF_def)
qed

theorem generatePDF_one_error_witness:
  "generatePDF_try faulty_lib demo_details long_link_summary = Inl (TypeError (js ''font'')) \<and>
   generatePDF faulty_lib demo_details long_link_summary = Inl (Error (js ''Failed to generate PDF'')) \<and>
   generatePDF demo_lib demo_details long_link_summary = Inr long_link_doc"
proof -
  from generatePDF_one_error[of faulty_lib demo_details long_link_summary] faulty_try
  have a: "generatePDF faulty_lib demo_details long_link_summary =
             Inl (Error (js ''Failed to generate PDF''))" by auto
  from generatePDF_one_error[of demo_lib demo_details long_link_summary] long_link_try
  have b: "generatePDF demo_lib demo_details long_link_summary = Inr long_link_doc" by auto
  show ?thesis by (rule conjI[OF faulty_try conjI[OF a b]])
qed

text \<open>
  C8, on an input where the code departs from it. Ten one-line paragraphs leave the cursor at
  250 in front of a link that takes six lines, 38 in height. The check before the link asks for
  15, which fits above the margin at 277, so no page is added anywhere in the document and the
  link is written at 250, with its height reaching 288.
\<close>

theorem long_link_past_margin:
  "generatePDF demo_lib demo_details long_link_summary = Inr long_link_doc \<and>
   AddPage \<notin> set long_link_doc \<and>
   Text (chunks 100 long_link) 15 250 \<in> set long_link_doc \<and>
   length (chunks 100 long_link) = 6 \<and>
   (250::real) + lineHeight * 1.5 \<le> pageHeight demo_lib - 20 \<and>
   (250::real) + (real (length (chunks 100 long_link)) * 6 + 2) > pageHeight demo_lib - 20"
proof -
  have a: "generatePDF demo_lib demo_details long_link_summary = Inr long_link_doc"
    by (simp add: generatePDF_def long_link_try)
  have b: "AddPage \<notin> set long_link_doc" by (simp add: long_link_doc_def)
  have c: "Text (chunks 100 long_link) 15 250 \<in> set long_link_doc"
    unfolding chunks_long_link by (simp add: long_link_doc_def)
  have d: "length (chunks 100 long_link) = 6" unfolding chunks_long_link by simp
  have e: "(250::real) + lineHeight * 1.5 \<le> pageHeight demo_lib - 20"
    by (simp add: demo_lib_def lineHeight_def)
  have f: "(250::real) + (real (length (chunks 100 long_link)) * 6 + 2) > pageHeight demo_lib - 20"
    unfolding d by (simp add: demo_lib_def)
  show ?thesis by (rule conjI[OF a conjI[OF b conjI[OF c conjI[OF d conjI[OF e f]]]]])
qed

end
